theory Spec2Isabelle
  imports Complex_Main
begin

section \<open>Tile-based lettuce detection: tiling, remapping, filtering, export\<close>

text \<open>
  A shallow embedding of the pipeline functions of \<^verbatim>\<open>lettuce_detecto.ipynb\<close>:
  \<^verbatim>\<open>crop_image_into_tiles\<close>, \<^verbatim>\<open>get_predictions_for_tiles\<close>,
  \<^verbatim>\<open>adjust_boxes\<close>,
  \<^verbatim>\<open>display_original_image_with_boxes\<close>, \<^verbatim>\<open>create_georeferenced_shapefile\<close>
  and \<^verbatim>\<open>transform_polygon\<close>.

  Python integers are \<^typ>\<open>int\<close>; box coordinates, scores and affine coefficients are
  floating-point numbers in the notebook and are idealised as \<^typ>\<open>real\<close>, so rounding
  is not part of the model. Exceptions are values of the type \<open>error\<close>. The file system
  is an explicit state; a missing input file is the only file-system failure that is
  modelled (permissions, disk space, an empty folder name and the refusals of the JPEG
  encoder are not, as said at the definitions concerned). The calls into PIL,
  shapely, rasterio and geopandas are modelled by what these libraries document, as far
  as the pipeline depends on it.
\<close>

subsection \<open>Data model\<close>

datatype error =
    FileNotFoundError
  | UnidentifiedImageError
  | RasterioIOError
  | ValueError
  | IndexError
  | KeyError

text \<open>A coordinate reference system, identified by its EPSG code.\<close>

datatype crs = EPSG nat

text \<open>
  The six coefficients of an \<^verbatim>\<open>affine.Affine\<close> matrix, as rasterio's
  \<^verbatim>\<open>src.transform\<close> holds them.
\<close>

record affine =
  aff_a :: real
  aff_b :: real
  aff_c :: real
  aff_d :: real
  aff_e :: real
  aff_f :: real

text \<open>
  A PIL image: its size, its mode string and its pixels, each pixel a list of channel
  values (four for \<^verbatim>\<open>RGBA\<close>, three for \<^verbatim>\<open>RGB\<close>, one for \<^verbatim>\<open>L\<close>).
\<close>

record image =
  img_width :: int
  img_height :: int
  img_mode :: string
  img_pixel :: "int \<Rightarrow> int \<Rightarrow> nat list"

text \<open>What \<^verbatim>\<open>rasterio.open\<close> reads of a raster file: its CRS (if any) and transform.\<close>

record dataset =
  src_crs :: "crs option"
  src_transform :: affine

text \<open>A polygon is its exterior ring, the coordinate sequence of \<^verbatim>\<open>geometry.exterior.coords\<close>.\<close>

type_synonym polygon = "(real \<times> real) list"

text \<open>One row of the GeoDataFrame, built from the dict with keys geometry, label, score.\<close>

record feature =
  geometry :: polygon
  label :: string
  score :: real

text \<open>A GeoDataFrame: its column names, its rows and the CRS of its geometry column.\<close>

record geodataframe =
  gdf_columns :: "string list"
  gdf_rows :: "feature list"
  gdf_crs :: "crs option"

datatype fs_entry =
    RasterFile image dataset
  | VectorFile geodataframe

text \<open>
  The environment of the pipeline: the directories, the files, and the lossy round trip
  of the installed JPEG codec, which maps an image handed to the encoder to the pixels
  that are read back from the file. Nothing is assumed about these pixels.
\<close>

record filesystem =
  fs_dirs :: "string set"
  fs_files :: "string \<rightharpoonup> fs_entry"
  fs_jpeg_pixels :: "image \<Rightarrow> int \<Rightarrow> int \<Rightarrow> nat list"

type_synonym bbox = "real \<times> real \<times> real \<times> real"

text \<open>
  One element of \<^verbatim>\<open>all_predictions\<close>: the tuple
  \<^verbatim>\<open>(labels, boxes, scores, tile_x, tile_y)\<close>.
\<close>

type_synonym prediction = "string list \<times> bbox list \<times> real list \<times> int \<times> int"

subsection \<open>Python and library primitives\<close>

text \<open>
  \<^verbatim>\<open>range(start, stop, step)\<close> for a non-zero step: counting up while below
  \<open>stop\<close> for a positive step, counting down while above it for a negative one.
\<close>

function range_from :: "int \<Rightarrow> int \<Rightarrow> int \<Rightarrow> int list" where
  "range_from start stop step =
     (if (0 < step \<and> start < stop) \<or> (step < 0 \<and> stop < start)
      then start # range_from (start + step) stop step
      else [])"
  by pat_completeness auto
termination
  by (relation "measure (\<lambda>(start, stop, step).
        nat (if 0 < step then stop - start else start - stop))") auto

declare range_from.simps [simp del]

text \<open>\<^verbatim>\<open>range\<close> raises \<^verbatim>\<open>ValueError\<close> when the step is zero.\<close>

definition py_range :: "int \<Rightarrow> int \<Rightarrow> int \<Rightarrow> error + int list" where
  "py_range start stop step =
     (if step = 0 then Inl ValueError else Inr (range_from start stop step))"

text \<open>
  A \<^verbatim>\<open>for\<close> loop whose body may raise: the first exception leaves the loop.
\<close>

fun for_each :: "('a \<Rightarrow> 's \<Rightarrow> error + 's) \<Rightarrow> 'a list \<Rightarrow> 's \<Rightarrow> error + 's" where
  "for_each body [] s = Inr s"
| "for_each body (x # xs) s =
     (case body x s of Inl e \<Rightarrow> Inl e | Inr s' \<Rightarrow> for_each body xs s')"

text \<open>\<^verbatim>\<open>xs[i]\<close> for a non-negative index: \<^verbatim>\<open>IndexError\<close> past the end.\<close>

definition py_index :: "'a list \<Rightarrow> nat \<Rightarrow> error + 'a" where
  "py_index xs i = (if i < length xs then Inr (xs ! i) else Inl IndexError)"

text \<open>\<^verbatim>\<open>str(n)\<close> for a non-negative integer: its decimal digits.\<close>

definition digit_char :: "nat \<Rightarrow> char" where
  "digit_char d = ''0123456789'' ! (d mod 10)"

fun str_of_nat :: "nat \<Rightarrow> string" where
  "str_of_nat n =
     (if n < 10 then [digit_char n] else str_of_nat (n div 10) @ [digit_char (n mod 10)])"

declare str_of_nat.simps [simp del]

text \<open>
  \<^verbatim>\<open>os.path.join(folder, name)\<close> on a POSIX system, for a \<open>name\<close> that is not
  absolute: the separator is inserted unless \<open>folder\<close> is empty or ends with one.
\<close>

definition path_join :: "string \<Rightarrow> string \<Rightarrow> string" where
  "path_join folder name =
     (if folder = [] \<or> last folder = CHR ''/'' then folder @ name
      else folder @ ''/'' @ name)"

definition path_exists :: "filesystem \<Rightarrow> string \<Rightarrow> bool" where
  "path_exists fs p \<longleftrightarrow> p \<in> fs_dirs fs \<or> fs_files fs p \<noteq> None"

text \<open>
  \<^verbatim>\<open>os.makedirs\<close> raises \<^verbatim>\<open>FileNotFoundError\<close> for an empty path; this
  failure is not modelled, so the model agrees with the code only for a non-empty
  \<^verbatim>\<open>output_folder\<close>.
\<close>

definition makedirs :: "filesystem \<Rightarrow> string \<Rightarrow> filesystem" where
  "makedirs fs p = fs\<lparr>fs_dirs := insert p (fs_dirs fs)\<rparr>"

text \<open>\<^verbatim>\<open>Image.open\<close>: the image stored at a path.\<close>

definition Image_open :: "filesystem \<Rightarrow> string \<Rightarrow> error + image" where
  "Image_open fs p =
     (case fs_files fs p of
        None \<Rightarrow> Inl FileNotFoundError
      | Some (RasterFile im ds) \<Rightarrow> Inr im
      | Some (VectorFile g) \<Rightarrow> Inl UnidentifiedImageError)"

text \<open>
  \<^verbatim>\<open>image.crop(box)\<close>: the region from \<open>(left, upper)\<close> up to, not including,
  \<open>(right, lower)\<close>; the mode is kept.
\<close>

definition crop :: "image \<Rightarrow> int \<times> int \<times> int \<times> int \<Rightarrow> image" where
  "crop im bx =
     (case bx of (left, upper, right, lower) \<Rightarrow>
        \<lparr>img_width = right - left, img_height = lower - upper, img_mode = img_mode im,
         img_pixel = (\<lambda>i j. img_pixel im (left + i) (upper + j))\<rparr>)"

text \<open>
  \<^verbatim>\<open>tile.convert("RGB")\<close> on an \<^verbatim>\<open>RGBA\<close> image, the only case in which the
  source calls it: the three colour channels are kept and the alpha channel is discarded.
\<close>

definition convert_RGB :: "image \<Rightarrow> image" where
  "convert_RGB im = im\<lparr>img_mode := ''RGB'', img_pixel := (\<lambda>i j. take 3 (img_pixel im i j))\<rparr>"

text \<open>
  \<^verbatim>\<open>tile.save(tile_path, 'JPEG')\<close> and what \<^verbatim>\<open>Image.open\<close> later reads back
  from the file. PIL writes the modes \<^verbatim>\<open>1\<close>, \<^verbatim>\<open>L\<close>, \<^verbatim>\<open>RGB\<close>,
  \<^verbatim>\<open>RGBX\<close>, \<^verbatim>\<open>CMYK\<close> and \<^verbatim>\<open>YCbCr\<close>; a JPEG file is read back in mode
  \<^verbatim>\<open>L\<close>, \<^verbatim>\<open>RGB\<close> or \<^verbatim>\<open>CMYK\<close>, so a tile of mode \<^verbatim>\<open>1\<close> comes back as
  \<^verbatim>\<open>L\<close> and one of mode \<^verbatim>\<open>RGBX\<close> or \<^verbatim>\<open>YCbCr\<close> as \<^verbatim>\<open>RGB\<close>. The size is
  kept and the pixels are those of the codec's round trip. A JPEG carries no
  georeferencing.

  PIL raises \<^verbatim>\<open>OSError\<close> for every other mode (\<^verbatim>\<open>P\<close>, \<^verbatim>\<open>LA\<close>, ...) and for
  an image with a side of more than 65500 pixels. These failures are not modelled:
  the model agrees with the code only for tiles of a mode that PIL writes and of sides up
  to 65500.
\<close>

definition jpeg_mode :: "string \<Rightarrow> string" where
  "jpeg_mode m =
     (if m = ''1'' then ''L''
      else if m = ''RGBX'' \<or> m = ''YCbCr'' then ''RGB''
      else m)"

definition jpeg_reread :: "(image \<Rightarrow> int \<Rightarrow> int \<Rightarrow> nat list) \<Rightarrow> image \<Rightarrow> image" where
  "jpeg_reread codec im =
     \<lparr>img_width = img_width im, img_height = img_height im,
      img_mode = jpeg_mode (img_mode im), img_pixel = codec im\<rparr>"

definition identity_affine :: affine where
  "identity_affine = \<lparr>aff_a = 1, aff_b = 0, aff_c = 0, aff_d = 0, aff_e = 1, aff_f = 0\<rparr>"

definition save_jpeg :: "filesystem \<Rightarrow> string \<Rightarrow> image \<Rightarrow> filesystem" where
  "save_jpeg fs p im =
     fs\<lparr>fs_files := (fs_files fs)(p \<mapsto>
           RasterFile (jpeg_reread (fs_jpeg_pixels fs) im)
             \<lparr>src_crs = None, src_transform = identity_affine\<rparr>)\<rparr>"

subsection \<open>Step 1: cropping the image into tiles\<close>

text \<open>
  The loop state of \<^verbatim>\<open>crop_image_into_tiles\<close>: \<^verbatim>\<open>tile_num\<close>,
  \<^verbatim>\<open>tiles_with_coordinates\<close> and the file system.
\<close>

type_synonym tiles = "(string \<times> int \<times> int) list"

type_synonym crop_state = "nat \<times> tiles \<times> filesystem"

text \<open>The body of the inner loop, for one \<open>(x, y)\<close>.\<close>

definition tile_body ::
  "image \<Rightarrow> int \<Rightarrow> string \<Rightarrow> int \<Rightarrow> int \<Rightarrow> int \<Rightarrow> int \<Rightarrow> crop_state \<Rightarrow> crop_state" where
  "tile_body im tile_size output_folder img_w img_h y x st =
     (case st of (tile_num, tiles_with_coordinates, fs) \<Rightarrow>
        let bx = (x, y, min (x + tile_size) img_w, min (y + tile_size) img_h);
            tile = crop im bx;
            tile = (if img_mode tile = ''RGBA'' then convert_RGB tile else tile);
            tile_path = path_join output_folder (''tile_'' @ str_of_nat tile_num @ ''.jpg'');
            fs = save_jpeg fs tile_path tile
        in (tile_num + 1, tiles_with_coordinates @ [(tile_path, (x, y))], fs))"

text \<open>
  The function returns \<^verbatim>\<open>tiles_with_coordinates\<close> or raises; the file system is
  returned in both cases. The outer \<^verbatim>\<open>range\<close> is evaluated first and raises for a
  zero \<open>tile_size\<close>, after the output folder has been created; the inner
  \<^verbatim>\<open>range\<close> is only reached with a non-zero step.
\<close>

definition crop_image_into_tiles ::
  "filesystem \<Rightarrow> string \<Rightarrow> int \<Rightarrow> string \<Rightarrow> (error + tiles) \<times> filesystem" where
  "crop_image_into_tiles fs image_path tile_size output_folder =
     (case Image_open fs image_path of
        Inl e \<Rightarrow> (Inl e, fs)
      | Inr im \<Rightarrow>
          let img_w = img_width im; img_h = img_height im;
              fs1 = (if \<not> path_exists fs output_folder then makedirs fs output_folder else fs)
          in (case py_range 0 img_h tile_size of
                Inl e \<Rightarrow> (Inl e, fs1)
              | Inr ys \<Rightarrow>
                  (case fold (\<lambda>y. fold (tile_body im tile_size output_folder img_w img_h y)
                                     (range_from 0 img_w tile_size))
                             ys (0, [], fs1) of
                     (tile_num, tiles_with_coordinates, fs2) \<Rightarrow>
                       (Inr tiles_with_coordinates, fs2))))"

subsection \<open>Step 2: predictions for each tile\<close>



subsection \<open>Step 3: remapping boxes and drawing them\<close>

definition adjust_boxes :: "bbox list \<Rightarrow> int \<Rightarrow> int \<Rightarrow> bbox list" where
  "adjust_boxes boxes tile_x tile_y =
     fold (\<lambda>bx adjusted_boxes.
             case bx of (x_min, y_min, x_max, y_max) \<Rightarrow>
               let adjusted_box = (x_min + of_int tile_x, y_min + of_int tile_y,
                                   x_max + of_int tile_x, y_max + of_int tile_y)
               in adjusted_boxes @ [adjusted_box])
          boxes []"

text \<open>
  A \<^verbatim>\<open>patches.Rectangle((x, y), width, height)\<close> added to the axes; the overlay
  is the list of rectangles in the order in which they are added.
\<close>

type_synonym rectangle = "(real \<times> real) \<times> real \<times> real"

definition display_body ::
  "real \<Rightarrow> real list \<Rightarrow> nat \<times> bbox \<Rightarrow> rectangle list \<Rightarrow> error + rectangle list" where
  "display_body threshold scores ib ax =
     (case ib of (i, bx) \<Rightarrow>
        (case py_index scores i of
           Inl e \<Rightarrow> Inl e
         | Inr s \<Rightarrow>
             if s > threshold
             then (case bx of (x_min, y_min, x_max, y_max) \<Rightarrow>
                     let rect = ((x_min, y_min), x_max - x_min, y_max - y_min)
                     in Inr (ax @ [rect]))
             else Inr ax))"

definition display_original_image_with_boxes ::
  "filesystem \<Rightarrow> string \<Rightarrow> prediction list \<Rightarrow> real \<Rightarrow> error + rectangle list" where
  "display_original_image_with_boxes fs image_path all_predictions threshold =
     (case Image_open fs image_path of
        Inl e \<Rightarrow> Inl e
      | Inr im \<Rightarrow>
          for_each
            (\<lambda>pred ax.
               case pred of (labels, boxes, scores, tile_x, tile_y) \<Rightarrow>
                 let adjusted_boxes = adjust_boxes boxes tile_x tile_y
                 in for_each (display_body threshold scores) (enumerate 0 adjusted_boxes) ax)
            all_predictions [])"

subsection \<open>Georeferenced export\<close>

text \<open>
  \<^verbatim>\<open>shapely.geometry.box(minx, miny, maxx, maxy)\<close>: the closed, counter-clockwise
  ring that starts at \<open>(maxx, miny)\<close>. For a box of zero width or height shapely
  gives a ring of four coordinates; the model keeps five, with the same corners at the
  positions that the export reads.
\<close>

definition shapely_box :: "real \<Rightarrow> real \<Rightarrow> real \<Rightarrow> real \<Rightarrow> polygon" where
  "shapely_box minx miny maxx maxy =
     [(maxx, miny), (maxx, maxy), (minx, maxy), (minx, miny), (maxx, miny)]"

text \<open>\<^verbatim>\<open>transform * (x, y)\<close> for an \<^verbatim>\<open>Affine\<close> transform.\<close>

definition affine_apply :: "affine \<Rightarrow> real \<times> real \<Rightarrow> real \<times> real" where
  "affine_apply t p =
     (case p of (x, y) \<Rightarrow>
        (aff_a t * x + aff_b t * y + aff_c t, aff_d t * x + aff_e t * y + aff_f t))"

definition transform_polygon :: "polygon \<Rightarrow> affine \<Rightarrow> error + polygon" where
  "transform_polygon geom t =
     (let transformed_coords = map (affine_apply t) geom
      in case py_index transformed_coords 0 of
           Inl e \<Rightarrow> Inl e
         | Inr p0 \<Rightarrow>
             (case py_index transformed_coords 2 of
                Inl e \<Rightarrow> Inl e
              | Inr p2 \<Rightarrow> Inr (shapely_box (fst p0) (snd p0) (fst p2) (snd p2))))"

text \<open>\<^verbatim>\<open>rasterio.open\<close>: the dataset stored at a path.\<close>

definition rasterio_open :: "filesystem \<Rightarrow> string \<Rightarrow> error + dataset" where
  "rasterio_open fs p =
     (case fs_files fs p of
        Some (RasterFile im ds) \<Rightarrow> Inr ds
      | _ \<Rightarrow> Inl RasterioIOError)"

text \<open>
  \<^verbatim>\<open>gpd.GeoDataFrame(data, crs=...)\<close> for a list of dicts that all have the keys
  geometry, label and score: the columns are the keys that occur, so an empty list gives
  a frame without columns. geopandas refuses to assign a CRS to a frame that has no
  geometry column and raises \<^verbatim>\<open>ValueError\<close> (versions that do not check this
  fail at the next statement, where the missing column is read).
\<close>

definition GeoDataFrame :: "feature list \<Rightarrow> crs option \<Rightarrow> error + geodataframe" where
  "GeoDataFrame data c =
     (let columns = (if data = [] then [] else [''geometry'', ''label'', ''score''])
      in if ''geometry'' \<notin> set columns \<and> c \<noteq> None then Inl ValueError
         else Inr \<lparr>gdf_columns = columns, gdf_rows = data, gdf_crs = c\<rparr>)"

text \<open>
  \<^verbatim>\<open>gdf['geometry'] = gdf['geometry'].apply(f)\<close>: reading a column that the frame
  does not have raises \<^verbatim>\<open>KeyError\<close>; otherwise \<open>f\<close> replaces the geometry of each
  row, in order, and the CRS of the column is kept.
\<close>

definition apply_geometry ::
  "(polygon \<Rightarrow> error + polygon) \<Rightarrow> geodataframe \<Rightarrow> error + geodataframe" where
  "apply_geometry f gdf =
     (if ''geometry'' \<notin> set (gdf_columns gdf) then Inl KeyError
      else case for_each (\<lambda>row rows.
                            case f (geometry row) of
                              Inl e \<Rightarrow> Inl e
                            | Inr g \<Rightarrow> Inr (rows @ [row\<lparr>geometry := g\<rparr>]))
                         (gdf_rows gdf) [] of
             Inl e \<Rightarrow> Inl e
           | Inr rows \<Rightarrow> Inr (gdf\<lparr>gdf_rows := rows\<rparr>))"

text \<open>
  \<^verbatim>\<open>gdf.set_crs(crs, inplace=True)\<close> with the default
  \<^verbatim>\<open>allow_override=False\<close>: a frame that already has a CRS different from the one
  passed raises \<^verbatim>\<open>ValueError\<close>. The coordinates are never changed.
\<close>

definition set_crs :: "geodataframe \<Rightarrow> crs option \<Rightarrow> error + geodataframe" where
  "set_crs gdf c =
     (if gdf_crs gdf \<noteq> None \<and> gdf_crs gdf \<noteq> c then Inl ValueError
      else Inr (gdf\<lparr>gdf_crs := c\<rparr>))"

text \<open>\<^verbatim>\<open>gdf.to_file(path, driver="ESRI Shapefile")\<close>: the layer is stored at the path.\<close>

definition to_file :: "filesystem \<Rightarrow> string \<Rightarrow> geodataframe \<Rightarrow> filesystem" where
  "to_file fs p gdf = fs\<lparr>fs_files := (fs_files fs)(p \<mapsto> VectorFile gdf)\<rparr>"

text \<open>The body of the inner loop of \<^verbatim>\<open>create_georeferenced_shapefile\<close>.\<close>

definition polygon_body ::
  "real \<Rightarrow> prediction \<Rightarrow> nat \<times> bbox \<Rightarrow> feature list \<Rightarrow> error + feature list" where
  "polygon_body threshold pred ib polygons =
     (case pred of (labels, boxes, scores, tile_x, tile_y) \<Rightarrow>
      case ib of (i, box_coords) \<Rightarrow>
        (case py_index scores i of
           Inl e \<Rightarrow> Inl e
         | Inr s \<Rightarrow>
             if s \<ge> threshold
             then (case box_coords of (x_min, y_min, x_max, y_max) \<Rightarrow>
                     let x_min = x_min + of_int tile_x;
                         y_min = y_min + of_int tile_y;
                         x_max = x_max + of_int tile_x;
                         y_max = y_max + of_int tile_y;
                         polygon = shapely_box x_min y_min x_max y_max
                     in (case py_index labels i of
                           Inl e \<Rightarrow> Inl e
                         | Inr l \<Rightarrow>
                             Inr (polygons @ [\<lparr>geometry = polygon, label = l, score = s\<rparr>])))
             else Inr polygons))"

text \<open>
  The function returns nothing; its effect is the shapefile it writes, so the model
  returns the file system after the write, or the exception raised before it.
\<close>

definition create_georeferenced_shapefile ::
  "filesystem \<Rightarrow> prediction list \<Rightarrow> string \<Rightarrow> string \<Rightarrow> real \<Rightarrow> error + filesystem" where
  "create_georeferenced_shapefile fs all_predictions image_path output_shapefile threshold =
     (case rasterio_open fs image_path of
        Inl e \<Rightarrow> Inl e
      | Inr src \<Rightarrow>
          let c = src_crs src; transform = src_transform src
          in (case for_each
                     (\<lambda>pred polygons.
                        case pred of (labels, boxes, scores, tile_x, tile_y) \<Rightarrow>
                          for_each (polygon_body threshold pred) (enumerate 0 boxes) polygons)
                     all_predictions [] of
                Inl e \<Rightarrow> Inl e
              | Inr polygons \<Rightarrow>
                  (case GeoDataFrame polygons (Some (EPSG 32611)) of
                     Inl e \<Rightarrow> Inl e
                   | Inr gdf_pixel \<Rightarrow>
                       (case apply_geometry (\<lambda>geom. transform_polygon geom transform)
                                            gdf_pixel of
                          Inl e \<Rightarrow> Inl e
                        | Inr gdf_pixel \<Rightarrow>
                            (case set_crs gdf_pixel c of
                               Inl e \<Rightarrow> Inl e
                             | Inr gdf_pixel \<Rightarrow>
                                 Inr (to_file fs output_shapefile gdf_pixel))))))"

subsection \<open>Notions used to state the properties\<close>

text \<open>
  The path of tile number \<open>k\<close>, as the source's
  \<^verbatim>\<open>os.path.join(output_folder, f'tile_{tile_num}.jpg')\<close> computes it.
\<close>

definition tile_path_of :: "string \<Rightarrow> nat \<Rightarrow> string" where
  "tile_path_of output_folder k = path_join output_folder (''tile_'' @ str_of_nat k @ ''.jpg'')"

text \<open>The offsets \<open>0, tile_size, 2 * tile_size, ...\<close> below \<open>extent\<close>.\<close>

definition grid_offsets :: "int \<Rightarrow> int \<Rightarrow> int list" where
  "grid_offsets extent tile_size =
     map (\<lambda>k. int k * tile_size) [0 ..< nat ((extent + tile_size - 1) div tile_size)]"

text \<open>Row-major enumeration: for each \<open>y\<close> in order, each \<open>x\<close> in order.\<close>

definition grid_points :: "int list \<Rightarrow> int list \<Rightarrow> (int \<times> int) list" where
  "grid_points xs ys = concat (map (\<lambda>y. map (\<lambda>x. (x, y)) xs) ys)"

text \<open>The box of the tile with a given origin, clipped at the raster boundary.\<close>

definition clipped_box :: "int \<Rightarrow> int \<Rightarrow> int \<Rightarrow> int \<times> int \<Rightarrow> int \<times> int \<times> int \<times> int" where
  "clipped_box w h tile_size origin =
     (case origin of (ox, oy) \<Rightarrow> (ox, oy, min (ox + tile_size) w, min (oy + tile_size) h))"

definition grid_boxes :: "int \<Rightarrow> int \<Rightarrow> int \<Rightarrow> (int \<times> int \<times> int \<times> int) list" where
  "grid_boxes w h tile_size =
     map (clipped_box w h tile_size)
       (grid_points (grid_offsets w tile_size) (grid_offsets h tile_size))"

text \<open>
  The box that a returned tile \<open>(tile_path, (ox, oy))\<close> occupies in the full image: its
  origin together with the size of the image saved at \<open>tile_path\<close>.
\<close>

definition tile_box :: "filesystem \<Rightarrow> string \<times> int \<times> int \<Rightarrow> (int \<times> int \<times> int \<times> int) option" where
  "tile_box fs t =
     (case t of (tile_path, ox, oy) \<Rightarrow>
        (case Image_open fs tile_path of
           Inr tile \<Rightarrow> Some (ox, oy, ox + img_width tile, oy + img_height tile)
         | Inl e \<Rightarrow> None))"

text \<open>The pixels of a box \<open>(x0, y0, x1, y1)\<close>: columns \<open>x0 \<le> x < x1\<close>, rows \<open>y0 \<le> y < y1\<close>.\<close>

definition box_pixels :: "int \<times> int \<times> int \<times> int \<Rightarrow> (int \<times> int) set" where
  "box_pixels b = (case b of (x0, y0, x1, y1) \<Rightarrow> {x0 ..< x1} \<times> {y0 ..< y1})"

text \<open>The image that the loop body hands to \<^verbatim>\<open>save\<close> for the tile with a given origin.\<close>

definition tile_image :: "image \<Rightarrow> int \<Rightarrow> int \<times> int \<Rightarrow> image" where
  "tile_image im tile_size origin =
     (case origin of (ox, oy) \<Rightarrow>
        let tile = crop im (ox, oy, min (ox + tile_size) (img_width im),
                            min (oy + tile_size) (img_height im))
        in if img_mode im = ''RGBA'' then convert_RGB tile else tile)"

definition jpeg_entry :: "(image \<Rightarrow> int \<Rightarrow> int \<Rightarrow> nat list) \<Rightarrow> image \<Rightarrow> fs_entry" where
  "jpeg_entry codec tile =
     RasterFile (jpeg_reread codec tile) \<lparr>src_crs = None, src_transform = identity_affine\<rparr>"



text \<open>
  A detection with the origin of its tile: \<open>(label, box, score, tile_x, tile_y)\<close>. The
  detections of a prediction tuple pair up its three parallel sequences; a tuple is
  aligned when the three have the same length, as the detector returns them.
\<close>

type_synonym detection = "string \<times> bbox \<times> real \<times> int \<times> int"

definition tile_detections :: "prediction \<Rightarrow> detection list" where
  "tile_detections pred =
     (case pred of (labels, boxes, scores, tile_x, tile_y) \<Rightarrow>
        map (\<lambda>(l, b, s). (l, b, s, tile_x, tile_y)) (zip labels (zip boxes scores)))"

definition all_detections :: "prediction list \<Rightarrow> detection list" where
  "all_detections all_predictions = concat (map tile_detections all_predictions)"

definition aligned :: "prediction \<Rightarrow> bool" where
  "aligned pred =
     (case pred of (labels, boxes, scores, tile_x, tile_y) \<Rightarrow>
        length labels = length boxes \<and> length scores = length boxes)"

definition det_score :: "detection \<Rightarrow> real" where
  "det_score d = (case d of (l, b, s, tile_x, tile_y) \<Rightarrow> s)"

text \<open>
  The specification's \<^verbatim>\<open>to_full_image\<close>: the origin offset is added to
  \<open>x_min\<close>, \<open>x_max\<close> and to \<open>y_min\<close>, \<open>y_max\<close>.
\<close>

definition to_full_image :: "bbox \<Rightarrow> int \<times> int \<Rightarrow> bbox" where
  "to_full_image b origin_offset =
     (case b of (x_min, y_min, x_max, y_max) \<Rightarrow>
        (x_min + of_int (fst origin_offset), y_min + of_int (snd origin_offset),
         x_max + of_int (fst origin_offset), y_max + of_int (snd origin_offset)))"

definition box_polygon :: "bbox \<Rightarrow> polygon" where
  "box_polygon b = (case b of (x_min, y_min, x_max, y_max) \<Rightarrow> shapely_box x_min y_min x_max y_max)"

text \<open>
  The polygon that the export computes for a pixel box: the box spanned by the images of
  the ring's first and third corner, \<open>(x_max, y_min)\<close> and \<open>(x_min, y_max)\<close>.
\<close>

definition to_geographic :: "bbox \<Rightarrow> affine \<Rightarrow> polygon" where
  "to_geographic b t =
     (case b of (x_min, y_min, x_max, y_max) \<Rightarrow>
        let p0 = affine_apply t (x_max, y_min); p2 = affine_apply t (x_min, y_max)
        in shapely_box (fst p0) (snd p0) (fst p2) (snd p2))"

definition pixel_detection :: "detection \<Rightarrow> feature" where
  "pixel_detection d =
     (case d of (l, b, s, tile_x, tile_y) \<Rightarrow>
        \<lparr>geometry = box_polygon (to_full_image b (tile_x, tile_y)), label = l, score = s\<rparr>)"

definition geo_detection :: "affine \<Rightarrow> detection \<Rightarrow> feature" where
  "geo_detection t d =
     (case d of (l, b, s, tile_x, tile_y) \<Rightarrow>
        \<lparr>geometry = to_geographic (to_full_image b (tile_x, tile_y)) t, label = l, score = s\<rparr>)"

definition overlay_rectangle :: "detection \<Rightarrow> rectangle" where
  "overlay_rectangle d =
     (case d of (l, b, s, tile_x, tile_y) \<Rightarrow>
        (case to_full_image b (tile_x, tile_y) of (x_min, y_min, x_max, y_max) \<Rightarrow>
           ((x_min, y_min), x_max - x_min, y_max - y_min)))"

text \<open>
  The transform with an origin offset incorporated: the same linear part, and the
  translation moved by the image of the offset, so that it maps a tile-local pixel to
  where the original transform maps the pixel of the full image.
\<close>

definition incorporate_offset :: "affine \<Rightarrow> int \<times> int \<Rightarrow> affine" where
  "incorporate_offset t origin_offset =
     t\<lparr>aff_c := aff_a t * of_int (fst origin_offset) + aff_b t * of_int (snd origin_offset)
                 + aff_c t,
       aff_f := aff_d t * of_int (fst origin_offset) + aff_e t * of_int (snd origin_offset)
                 + aff_f t\<rparr>"

text \<open>The layer stored at a path, if there is one.\<close>

definition written_layer :: "error + filesystem \<Rightarrow> string \<Rightarrow> geodataframe option" where
  "written_layer r p =
     (case r of
        Inr fs \<Rightarrow> (case fs_files fs p of Some (VectorFile g) \<Rightarrow> Some g | _ \<Rightarrow> None)
      | Inl e \<Rightarrow> None)"

subsection \<open>Concrete inputs\<close>

text \<open>
  A raster of a given size and mode whose pixels all have the same channel values, with
  a north-up transform of pixel size 0.01 and origin \<open>(500000, 4000000)\<close>, stored as
  \<^verbatim>\<open>ortho.tif\<close> in an otherwise empty file system whose JPEG codec gives the
  pixels back unchanged.
\<close>

definition example_image :: "int \<Rightarrow> int \<Rightarrow> string \<Rightarrow> nat list \<Rightarrow> image" where
  "example_image w h m px =
     \<lparr>img_width = w, img_height = h, img_mode = m, img_pixel = (\<lambda>i j. px)\<rparr>"

definition example_transform :: affine where
  "example_transform =
     \<lparr>aff_a = 1 / 100, aff_b = 0, aff_c = 500000, aff_d = 0, aff_e = - (1 / 100),
      aff_f = 4000000\<rparr>"

definition example_fs :: "image \<Rightarrow> crs option \<Rightarrow> filesystem" where
  "example_fs im c =
     \<lparr>fs_dirs = {},
      fs_files = Map.empty(''ortho.tif'' \<mapsto>
                   RasterFile im \<lparr>src_crs = c, src_transform = example_transform\<rparr>),
      fs_jpeg_pixels = img_pixel\<rparr>"

section \<open>Verification\<close>

subsection \<open>Auxiliary facts\<close>

lemma str_of_nat_nonempty: "str_of_nat n \<noteq> []"
  by (subst str_of_nat.simps) simp

lemma digit_char_inj:
  assumes "a < 10" "b < 10" "digit_char a = digit_char b"
  shows "a = b"
proof -
  have d: "distinct ''0123456789''" by simp
  have "''0123456789'' ! a = ''0123456789'' ! b"
    using assms by (simp add: digit_char_def)
  with d assms(1,2) show ?thesis
    by (simp add: nth_eq_iff_index_eq)
qed

lemma str_of_nat_inj: "str_of_nat a = str_of_nat b \<Longrightarrow> a = b"
proof (induction a arbitrary: b rule: str_of_nat.induct)
  case (1 n)
  show ?case
  proof (cases "n < 10")
    case small: True
    show ?thesis
    proof (cases "b < 10")
      case True
      with small "1.prems" show ?thesis
        by (simp add: str_of_nat.simps[of n] str_of_nat.simps[of b] digit_char_inj)
    next
      case False
      with small "1.prems" str_of_nat_nonempty[of "b div 10"] show ?thesis
        by (simp add: str_of_nat.simps[of n] str_of_nat.simps[of b])
    qed
  next
    case big: False
    show ?thesis
    proof (cases "b < 10")
      case True
      with big "1.prems" str_of_nat_nonempty[of "n div 10"] show ?thesis
        by (simp add: str_of_nat.simps[of n] str_of_nat.simps[of b])
    next
      case False
      with big "1.prems" have eq: "str_of_nat (n div 10) = str_of_nat (b div 10)"
        and dg: "digit_char (n mod 10) = digit_char (b mod 10)"
        by (simp_all add: str_of_nat.simps[of n] str_of_nat.simps[of b])
      from "1.IH"[OF big eq] have "n div 10 = b div 10" .
      moreover from dg have "n mod 10 = b mod 10"
        by (intro digit_char_inj) simp_all
      ultimately show ?thesis
        by (metis div_mult_mod_eq)
    qed
  qed
qed

lemma path_join_inj: "path_join folder a = path_join folder b \<Longrightarrow> a = b"
  by (simp add: path_join_def split: if_splits)

lemma tile_path_of_inj: "tile_path_of folder j = tile_path_of folder k \<Longrightarrow> j = k"
  unfolding tile_path_of_def by (drule path_join_inj) (simp add: str_of_nat_inj)

lemma range_from_pos:
  "0 < t \<Longrightarrow> range_from a n t = map (\<lambda>k. a + int k * t) [0 ..< nat ((n - a + t - 1) div t)]"
proof (induction a n t rule: range_from.induct)
  case (1 start stop step)
  show ?case
  proof (cases "start < stop")
    case True
    define q where "q = (stop - start - 1) div step"
    have q0: "0 \<le> q"
      unfolding q_def using True "1.prems" by (simp add: pos_imp_zdiv_nonneg_iff)
    have e: "stop - start + step - 1 = stop - start - 1 + step"
      by simp
    have "(stop - start + step - 1) div step = q + 1"
      unfolding e q_def using "1.prems" by (subst div_add_self2) simp_all
    then have n: "nat ((stop - start + step - 1) div step) = Suc (nat q)"
      using q0 by simp
    have "stop - (start + step) + step - 1 = stop - start - 1"
      by simp
    then have ih: "range_from (start + step) stop step =
                map (\<lambda>k. start + step + int k * step) [0 ..< nat q]"
      unfolding q_def using "1.IH" True "1.prems" by simp
    have "[0 ..< Suc (nat q)] = 0 # map Suc [0 ..< nat q]"
      by (simp add: upt_conv_Cons map_Suc_upt del: upt_Suc)
    then have "map (\<lambda>k. start + int k * step) [0 ..< Suc (nat q)] =
                 start # map (\<lambda>k. start + step + int k * step) [0 ..< nat q]"
      by (simp add: algebra_simps del: upt_Suc)
    with True "1.prems" ih n show ?thesis
      by (simp add: range_from.simps[of start stop step] del: upt_Suc)
  next
    case False
    then have "stop - start + step - 1 < step" by simp
    then have "stop - start + step - 1 \<le> step - 1" by simp
    then have "(stop - start + step - 1) div step \<le> (step - 1) div step"
      using "1.prems" by (rule zdiv_mono1)
    moreover have "(step - 1) div step = 0"
      using "1.prems" by (simp add: div_pos_pos_trivial)
    ultimately have "(stop - start + step - 1) div step \<le> 0" by simp
    with False "1.prems" show ?thesis
      by (simp add: range_from.simps[of start stop step])
  qed
qed

lemma range_from_neg: "t < 0 \<Longrightarrow> 0 \<le> n \<Longrightarrow> range_from 0 n t = []"
  by (simp add: range_from.simps[of 0 n t])

lemma fold_nested:
  "fold (\<lambda>y. fold (f y) xs) ys s = fold (\<lambda>(x, y). f y x) (grid_points xs ys) s"
proof (induction ys arbitrary: s)
  case Nil
  show ?case by (simp add: grid_points_def)
next
  case (Cons y ys)
  have "fold (\<lambda>(x, y). f y x) (map (\<lambda>x. (x, y)) xs) s = fold (f y) xs s" for s
    by (simp add: fold_map comp_def)
  with Cons show ?case
    by (simp add: grid_points_def)
qed

lemma tile_body_eq:
  "tile_body im t folder (img_width im) (img_height im) y x (n, ts, fs) =
     (Suc n, ts @ [(tile_path_of folder n, (x, y))],
      fs\<lparr>fs_files := (fs_files fs)(tile_path_of folder n \<mapsto>
            jpeg_entry (fs_jpeg_pixels fs) (tile_image im t (x, y)))\<rparr>)"
  by (simp add: tile_body_def tile_image_def tile_path_of_def jpeg_entry_def save_jpeg_def
      crop_def Let_def)

lemma crop_loop:
  "\<exists>fs. fold (\<lambda>(x, y). tile_body im t folder (img_width im) (img_height im) y x) pts
             (n0, ts0, fs0) =
          (n0 + length pts,
           ts0 @ map (\<lambda>(k, pt). (tile_path_of folder (n0 + k), pt)) (enumerate 0 pts), fs) \<and>
        fs_dirs fs = fs_dirs fs0 \<and> fs_jpeg_pixels fs = fs_jpeg_pixels fs0 \<and>
        (\<forall>k<length pts. fs_files fs (tile_path_of folder (n0 + k)) =
           Some (jpeg_entry (fs_jpeg_pixels fs0) (tile_image im t (pts ! k))))"
proof (induction pts rule: rev_induct)
  case Nil
  show ?case by simp
next
  case (snoc pt pts)
  then obtain fs1 where
    st: "fold (\<lambda>(x, y). tile_body im t folder (img_width im) (img_height im) y x) pts
           (n0, ts0, fs0) =
         (n0 + length pts,
          ts0 @ map (\<lambda>(k, pt). (tile_path_of folder (n0 + k), pt)) (enumerate 0 pts), fs1)"
    and dirs: "fs_dirs fs1 = fs_dirs fs0"
    and codec: "fs_jpeg_pixels fs1 = fs_jpeg_pixels fs0"
    and files: "\<And>k. k < length pts \<Longrightarrow> fs_files fs1 (tile_path_of folder (n0 + k)) =
           Some (jpeg_entry (fs_jpeg_pixels fs0) (tile_image im t (pts ! k)))"
    by blast
  obtain x y where pt: "pt = (x, y)" by (cases pt)
  define fs2 where "fs2 = fs1\<lparr>fs_files := (fs_files fs1)(tile_path_of folder (n0 + length pts) \<mapsto>
                            jpeg_entry (fs_jpeg_pixels fs0) (tile_image im t (x, y)))\<rparr>"
  have "fold (\<lambda>(x, y). tile_body im t folder (img_width im) (img_height im) y x) (pts @ [pt])
          (n0, ts0, fs0) =
        (n0 + length (pts @ [pt]),
         ts0 @ map (\<lambda>(k, pt). (tile_path_of folder (n0 + k), pt)) (enumerate 0 (pts @ [pt])), fs2)"
    using st pt codec by (simp add: tile_body_eq enumerate_append_eq fs2_def)
  moreover have "fs_dirs fs2 = fs_dirs fs0" and "fs_jpeg_pixels fs2 = fs_jpeg_pixels fs0"
    using dirs codec by (simp_all add: fs2_def)
  moreover have "fs_files fs2 (tile_path_of folder (n0 + k)) =
           Some (jpeg_entry (fs_jpeg_pixels fs0) (tile_image im t ((pts @ [pt]) ! k)))" if "k < length (pts @ [pt])" for k
  proof (cases "k < length pts")
    case True
    then have "tile_path_of folder (n0 + k) \<noteq> tile_path_of folder (n0 + length pts)"
      using tile_path_of_inj by fastforce
    with files[OF True] True show ?thesis
      by (simp add: fs2_def nth_append)
  next
    case False
    with that have "k = length pts" by simp
    then show ?thesis
      by (simp add: fs2_def pt)
  qed
  ultimately show ?case by blast
qed

lemma range_from_grid: "0 < t \<Longrightarrow> range_from 0 n t = grid_offsets n t"
  by (simp add: range_from_pos grid_offsets_def)

lemma crop_result:
  assumes op: "Image_open fs p = Inr im" and t: "t \<noteq> 0"
  defines "pts \<equiv> grid_points (range_from 0 (img_width im) t) (range_from 0 (img_height im) t)"
  shows "\<exists>fs'. crop_image_into_tiles fs p t folder =
           (Inr (map (\<lambda>(k, pt). (tile_path_of folder k, pt)) (enumerate 0 pts)), fs') \<and>
         (\<forall>k<length pts. fs_files fs' (tile_path_of folder k) =
            Some (jpeg_entry (fs_jpeg_pixels fs) (tile_image im t (pts ! k))))"
proof -
  define fs1 where "fs1 = (if \<not> path_exists fs folder then makedirs fs folder else fs)"
  have c1: "fs_jpeg_pixels fs1 = fs_jpeg_pixels fs"
    by (simp add: fs1_def makedirs_def)
  from crop_loop[of im t folder pts 0 "[]" fs1] obtain fs' where
    st: "fold (\<lambda>(x, y). tile_body im t folder (img_width im) (img_height im) y x) pts
           (0, [], fs1) =
         (length pts, map (\<lambda>(k, pt). (tile_path_of folder k, pt)) (enumerate 0 pts), fs')"
    and files: "\<forall>k<length pts. fs_files fs' (tile_path_of folder k) =
           Some (jpeg_entry (fs_jpeg_pixels fs) (tile_image im t (pts ! k)))"
    unfolding c1 by auto
  have "crop_image_into_tiles fs p t folder =
          (Inr (map (\<lambda>(k, pt). (tile_path_of folder k, pt)) (enumerate 0 pts)), fs')"
    using op t st
    by (simp add: crop_image_into_tiles_def py_range_def Let_def fold_nested
        fs1_def[symmetric] pts_def[symmetric])
  with files show ?thesis by blast
qed

lemma tile_image_size:
  "img_width (tile_image im t (x, y)) = min (x + t) (img_width im) - x"
  "img_height (tile_image im t (x, y)) = min (y + t) (img_height im) - y"
  by (simp_all add: tile_image_def crop_def convert_RGB_def Let_def)

lemma jpeg_reread_size:
  "img_width (jpeg_reread codec im) = img_width im"
  "img_height (jpeg_reread codec im) = img_height im"
  by (simp_all add: jpeg_reread_def)

lemma crop_tiles_grid:
  assumes op: "Image_open fs p = Inr im" and t: "0 < t"
  shows "\<exists>tiles fs'. crop_image_into_tiles fs p t folder = (Inr tiles, fs') \<and>
           map fst tiles = map (tile_path_of folder) [0 ..< length tiles] \<and>
           map snd tiles = grid_points (grid_offsets (img_width im) t) (grid_offsets (img_height im) t) \<and>
           map (tile_box fs') tiles = map Some (grid_boxes (img_width im) (img_height im) t) \<and>
           map (Image_open fs' \<circ> fst) tiles =
             map (Inr \<circ> jpeg_reread (fs_jpeg_pixels fs) \<circ> tile_image im t \<circ> snd) tiles"
proof -
  define pts where "pts = grid_points (grid_offsets (img_width im) t) (grid_offsets (img_height im) t)"
  define tiles where "tiles = map (\<lambda>(k, pt). (tile_path_of folder k, pt)) (enumerate 0 pts)"
  from crop_result[OF op, of t folder] t obtain fs' where
    res: "crop_image_into_tiles fs p t folder = (Inr tiles, fs')"
    and files: "\<And>k. k < length pts \<Longrightarrow> fs_files fs' (tile_path_of folder k) =
            Some (jpeg_entry (fs_jpeg_pixels fs) (tile_image im t (pts ! k)))"
    by (auto simp: range_from_grid pts_def tiles_def)
  have len: "length tiles = length pts"
    by (simp add: tiles_def)
  have nth: "tiles ! k = (tile_path_of folder k, pts ! k)" if "k < length pts" for k
    using that by (simp add: tiles_def nth_enumerate_eq)
  have opn: "Image_open fs' (tile_path_of folder k) =
               Inr (jpeg_reread (fs_jpeg_pixels fs) (tile_image im t (pts ! k)))"
    if "k < length pts" for k
    using files[OF that] by (simp add: Image_open_def jpeg_entry_def)
  have 1: "map fst tiles = map (tile_path_of folder) [0 ..< length tiles]"
    by (rule nth_equalityI) (simp_all add: len nth)
  have 2: "map snd tiles = pts"
    by (rule nth_equalityI) (simp_all add: len nth)
  have 3: "map (tile_box fs') tiles = map Some (grid_boxes (img_width im) (img_height im) t)"
  proof (rule nth_equalityI)
    show "length (map (tile_box fs') tiles) =
          length (map Some (grid_boxes (img_width im) (img_height im) t))"
      by (simp add: len grid_boxes_def pts_def)
  next
    fix k assume "k < length (map (tile_box fs') tiles)"
    then have k: "k < length pts" by (simp add: len)
    obtain x y where xy: "pts ! k = (x, y)" by (cases "pts ! k")
    from k xy show "map (tile_box fs') tiles ! k =
             map Some (grid_boxes (img_width im) (img_height im) t) ! k"
      using opn[OF k]
      by (simp add: len nth tile_box_def grid_boxes_def pts_def[symmetric] clipped_box_def
          tile_image_size jpeg_reread_size)
  qed
  have 4: "map (Image_open fs' \<circ> fst) tiles =
             map (Inr \<circ> jpeg_reread (fs_jpeg_pixels fs) \<circ> tile_image im t \<circ> snd) tiles"
    by (rule nth_equalityI) (simp_all add: len nth opn)
  from res 1 2 3 4 show ?thesis
    unfolding pts_def by blast
qed

lemma grid_points_product: "grid_points xs ys = map prod.swap (List.product ys xs)"
  by (induction ys) (simp_all add: grid_points_def comp_def)

lemma grid_points_set: "set (grid_points xs ys) = set xs \<times> set ys"
  by (auto simp: grid_points_product)

lemma grid_points_distinct: "distinct xs \<Longrightarrow> distinct ys \<Longrightarrow> distinct (grid_points xs ys)"
  by (simp add: grid_points_product distinct_map distinct_product)

lemma grid_points_length: "length (grid_points xs ys) = length xs * length ys"
  by (simp add: grid_points_product)

lemma div_mult_bounds:
  fixes p t :: int
  assumes "0 < t"
  shows "p div t * t \<le> p" and "p < p div t * t + t"
proof -
  have "p div t * t + p mod t = p"
    by simp
  moreover have "0 \<le> p mod t" and "p mod t < t"
    using assms by simp_all
  ultimately show "p div t * t \<le> p" and "p < p div t * t + t"
    by linarith+
qed

lemma count_below:
  fixes t n :: int
  assumes "0 < t"
  shows "int k < (n + t - 1) div t \<longleftrightarrow> int k * t < n"
proof
  assume "int k < (n + t - 1) div t"
  then have "int k + 1 \<le> (n + t - 1) div t" by simp
  then have "(int k + 1) * t \<le> (n + t - 1) div t * t"
    using assms by (simp add: mult_right_mono)
  also have "\<dots> \<le> n + t - 1"
    using assms by (rule div_mult_bounds)
  finally show "int k * t < n"
    by (simp add: algebra_simps)
next
  assume "int k * t < n"
  then have "(int k + 1) * t \<le> n + t - 1"
    by (simp add: algebra_simps)
  then have "((int k + 1) * t) div t \<le> (n + t - 1) div t"
    using assms by (rule zdiv_mono1)
  then show "int k < (n + t - 1) div t"
    using assms by simp
qed

lemma grid_offsets_mem:
  assumes "0 < t"
  shows "a \<in> set (grid_offsets n t) \<longleftrightarrow> 0 \<le> a \<and> a < n \<and> t dvd a"
proof
  assume "a \<in> set (grid_offsets n t)"
  then have "\<exists>k. k < nat ((n + t - 1) div t) \<and> a = int k * t"
    unfolding grid_offsets_def by auto
  then obtain k where "a = int k * t" "k < nat ((n + t - 1) div t)"
    by blast
  with assms count_below[OF assms, of k n] show "0 \<le> a \<and> a < n \<and> t dvd a"
    by auto
next
  assume a: "0 \<le> a \<and> a < n \<and> t dvd a"
  define k where "k = nat (a div t)"
  have "0 \<le> a div t"
    using a assms by (simp add: pos_imp_zdiv_nonneg_iff)
  then have ak: "a = int k * t"
    using a by (simp add: k_def)
  with a count_below[OF assms, of k n] have "k < nat ((n + t - 1) div t)"
    by simp
  with ak show "a \<in> set (grid_offsets n t)"
    by (auto simp: grid_offsets_def)
qed

lemma grid_offsets_distinct: "0 < t \<Longrightarrow> distinct (grid_offsets n t)"
  by (auto simp: grid_offsets_def distinct_map inj_on_def)

lemma stride_origin:
  fixes t x p :: int
  assumes "0 < t" "t dvd x" "x \<le> p" "p < x + t"
  shows "x = p div t * t"
proof -
  define m where "m = x div t"
  have m: "x = m * t" using assms(2) by (simp add: m_def)
  have "p = m * t + (p - x)" by (simp add: m)
  then have "p div t = (m * t + (p - x)) div t" by simp
  also have "\<dots> = m + (p - x) div t"
    using assms(1) by simp
  also have "(p - x) div t = 0"
    using assms by (simp add: div_pos_pos_trivial)
  finally show ?thesis by (simp add: m)
qed

lemma pixel_origin:
  assumes t: "0 < t"
    and pt: "pt \<in> set (grid_points (grid_offsets w t) (grid_offsets h t))"
    and px: "(px, py) \<in> box_pixels (clipped_box w h t pt)"
  shows "pt = (px div t * t, py div t * t)"
proof -
  obtain x y where xy: "pt = (x, y)" by (cases pt)
  from pt xy have "t dvd x" "t dvd y"
    by (simp_all add: grid_points_set grid_offsets_mem[OF t])
  moreover from px xy have "x \<le> px" "px < x + t" "y \<le> py" "py < y + t"
    by (simp_all add: box_pixels_def clipped_box_def)
  ultimately show ?thesis
    using stride_origin[OF t] xy by simp
qed

lemma grid_boxes_disjoint:
  assumes t: "0 < t"
    and b: "b \<in> set (grid_boxes w h t)" and b': "b' \<in> set (grid_boxes w h t)"
    and ne: "b \<noteq> b'"
  shows "box_pixels b \<inter> box_pixels b' = {}"
proof (rule ccontr)
  assume "box_pixels b \<inter> box_pixels b' \<noteq> {}"
  then obtain px py where p: "(px, py) \<in> box_pixels b" "(px, py) \<in> box_pixels b'"
    by auto
  from b b' obtain pt pt' where
    pt: "pt \<in> set (grid_points (grid_offsets w t) (grid_offsets h t))" "b = clipped_box w h t pt"
    and pt': "pt' \<in> set (grid_points (grid_offsets w t) (grid_offsets h t))" "b' = clipped_box w h t pt'"
    by (auto simp: grid_boxes_def)
  have "pt = (px div t * t, py div t * t)"
    using pixel_origin[OF t pt(1)] p(1) pt(2) by blast
  moreover have "pt' = (px div t * t, py div t * t)"
    using pixel_origin[OF t pt'(1)] p(2) pt'(2) by blast
  ultimately have "pt = pt'"
    by simp
  with pt(2) pt'(2) ne show False by simp
qed

lemma grid_boxes_distinct:
  assumes "0 < t"
  shows "distinct (grid_boxes w h t)"
proof -
  have "inj (clipped_box w h t)"
    by (auto simp: inj_on_def clipped_box_def)
  then have "inj_on (clipped_box w h t) A" for A
    by (rule inj_on_subset) simp
  with assms show ?thesis
    by (simp add: grid_boxes_def distinct_map grid_points_distinct grid_offsets_distinct)
qed

lemma grid_boxes_cover:
  assumes t: "0 < t"
  shows "\<Union> (box_pixels ` set (grid_boxes w h t)) = {0 ..< w} \<times> {0 ..< h}"
proof (rule set_eqI)
  fix p :: "int \<times> int"
  obtain px py where p: "p = (px, py)" by (cases p)
  show "p \<in> \<Union> (box_pixels ` set (grid_boxes w h t)) \<longleftrightarrow> p \<in> {0 ..< w} \<times> {0 ..< h}"
  proof
    assume "p \<in> \<Union> (box_pixels ` set (grid_boxes w h t))"
    then obtain x y where
      "x \<in> set (grid_offsets w t)" "y \<in> set (grid_offsets h t)"
      "p \<in> box_pixels (clipped_box w h t (x, y))"
      by (auto simp: grid_boxes_def grid_points_set)
    then show "p \<in> {0 ..< w} \<times> {0 ..< h}"
      using p by (auto simp: grid_offsets_mem[OF t] box_pixels_def clipped_box_def)
  next
    assume "p \<in> {0 ..< w} \<times> {0 ..< h}"
    then have r: "0 \<le> px" "px < w" "0 \<le> py" "py < h"
      using p by auto
    define x where "x = px div t * t"
    define y where "y = py div t * t"
    have xb: "x \<le> px" "px < x + t" "y \<le> py" "py < y + t"
      unfolding x_def y_def by (simp_all add: div_mult_bounds[OF t])
    have x0: "0 \<le> x" "0 \<le> y"
      using t r by (simp_all add: x_def y_def pos_imp_zdiv_nonneg_iff)
    have "x \<in> set (grid_offsets w t)" "y \<in> set (grid_offsets h t)"
      using xb r x0 by (simp_all add: grid_offsets_mem[OF t] x_def y_def)
    then have "clipped_box w h t (x, y) \<in> set (grid_boxes w h t)"
      by (simp add: grid_boxes_def grid_points_set)
    moreover have "p \<in> box_pixels (clipped_box w h t (x, y))"
      using p xb r by (simp add: box_pixels_def clipped_box_def)
    ultimately show "p \<in> \<Union> (box_pixels ` set (grid_boxes w h t))"
      by blast
  qed
qed

lemma fold_snoc_map: "fold (\<lambda>x acc. acc @ [f x]) xs acc = acc @ map f xs"
  by (induction xs arbitrary: acc) auto

lemma adjust_boxes_map: "adjust_boxes boxes tx ty = map (\<lambda>b. to_full_image b (tx, ty)) boxes"
proof -
  have "(\<lambda>bx adjusted_boxes. case bx of (x_min, y_min, x_max, y_max) \<Rightarrow>
               let adjusted_box = (x_min + of_int tx, y_min + of_int ty,
                                   x_max + of_int tx, y_max + of_int ty)
               in adjusted_boxes @ [adjusted_box]) = (\<lambda>x acc. acc @ [to_full_image x (tx, ty)])"
    by (auto simp: fun_eq_iff to_full_image_def)
  then show ?thesis unfolding adjust_boxes_def by (simp add: fold_snoc_map)
qed

lemma polygon_body_step:
  assumes "n < length labels" "n < length scores"
  shows "polygon_body thr (labels, bs0, scores, tx, ty) (n, b) polys =
     Inr (polys @ map pixel_detection
            (filter (\<lambda>d. thr \<le> det_score d) [(labels ! n, b, scores ! n, tx, ty)]))"
  using assms
  by (cases b) (simp add: polygon_body_def py_index_def pixel_detection_def det_score_def
      to_full_image_def box_polygon_def Let_def)

lemma polygon_loop:
  "length boxes + n = length labels \<Longrightarrow> length boxes + n = length scores \<Longrightarrow>
   for_each (polygon_body thr (labels, bs0, scores, tx, ty)) (enumerate n boxes) polys =
     Inr (polys @ map pixel_detection (filter (\<lambda>d. thr \<le> det_score d)
            (map (\<lambda>(l, b, s). (l, b, s, tx, ty))
               (zip (drop n labels) (zip boxes (drop n scores))))))"
proof (induction boxes arbitrary: n polys)
  case Nil
  show ?case by simp
next
  case (Cons b boxes)
  from Cons.prems have n: "n < length labels" "n < length scores"
    by simp_all
  then have d: "drop n labels = labels ! n # drop (Suc n) labels"
    "drop n scores = scores ! n # drop (Suc n) scores"
    by (simp_all add: Cons_nth_drop_Suc)
  from Cons.prems have ih: "for_each (polygon_body thr (labels, bs0, scores, tx, ty))
      (enumerate (Suc n) boxes) polys' =
     Inr (polys' @ map pixel_detection (filter (\<lambda>d. thr \<le> det_score d)
            (map (\<lambda>(l, b, s). (l, b, s, tx, ty))
               (zip (drop (Suc n) labels) (zip boxes (drop (Suc n) scores))))))" for polys'
    by (intro Cons.IH) simp_all
  show ?case
    by (simp add: d ih polygon_body_step[OF n])
qed

lemma polygon_loop_tile:
  assumes "aligned pred"
  shows "(case pred of (labels, boxes, scores, tile_x, tile_y) \<Rightarrow>
            for_each (polygon_body thr pred) (enumerate 0 boxes) polys) =
         Inr (polys @ map pixel_detection (filter (\<lambda>d. thr \<le> det_score d) (tile_detections pred)))"
proof -
  obtain labels boxes scores tx ty where p: "pred = (labels, boxes, scores, tx, ty)"
    by (cases pred)
  with assms show ?thesis
    using polygon_loop[of boxes 0 labels scores thr boxes tx ty polys]
    by (simp add: aligned_def tile_detections_def)
qed

lemma polygon_loop_all:
  assumes "\<forall>pred\<in>set preds. aligned pred"
  shows "for_each (\<lambda>pred polygons.
            case pred of (labels, boxes, scores, tile_x, tile_y) \<Rightarrow>
              for_each (polygon_body thr pred) (enumerate 0 boxes) polygons) preds polys =
         Inr (polys @ map pixel_detection (filter (\<lambda>d. thr \<le> det_score d) (all_detections preds)))"
  using assms
proof (induction preds arbitrary: polys)
  case Nil
  show ?case by (simp add: all_detections_def)
next
  case (Cons pred preds)
  then have a: "aligned pred" and as: "\<forall>pred\<in>set preds. aligned pred"
    by simp_all
  show ?case
    using polygon_loop_tile[OF a, of thr polys] Cons.IH[OF as]
    by (simp add: all_detections_def)
qed

lemma transform_box_polygon: "transform_polygon (box_polygon b) t = Inr (to_geographic b t)"
  by (cases b) (simp add: transform_polygon_def box_polygon_def shapely_box_def py_index_def
      to_geographic_def Let_def)

lemma apply_step:
  "(case transform_polygon (geometry (pixel_detection d)) t of
      Inl e \<Rightarrow> Inl e
    | Inr g \<Rightarrow> Inr (rows @ [(pixel_detection d)\<lparr>geometry := g\<rparr>])) =
   Inr (rows @ [geo_detection t d])"
  by (cases d) (simp add: pixel_detection_def geo_detection_def transform_box_polygon)

lemma apply_loop:
  "for_each (\<lambda>row rows. case transform_polygon (geometry row) t of
                            Inl e \<Rightarrow> Inl e
                          | Inr g \<Rightarrow> Inr (rows @ [row\<lparr>geometry := g\<rparr>]))
     (map pixel_detection ds) acc = Inr (acc @ map (geo_detection t) ds)"
proof (induction ds arbitrary: acc)
  case Nil
  show ?case by simp
next
  case (Cons d ds)
  show ?case
    by (simp add: Cons.IH apply_step)
qed

lemma export_result:
  assumes al: "\<forall>pred\<in>set preds. aligned pred"
    and op: "rasterio_open fs p = Inr src"
  shows "create_georeferenced_shapefile fs preds p out thr =
     (let kept = filter (\<lambda>d. thr \<le> det_score d) (all_detections preds)
      in if kept = [] \<or> src_crs src \<noteq> Some (EPSG 32611) then Inl ValueError
         else Inr (to_file fs out
                \<lparr>gdf_columns = [''geometry'', ''label'', ''score''],
                 gdf_rows = map (geo_detection (src_transform src)) kept,
                 gdf_crs = Some (EPSG 32611)\<rparr>))"
  using op
  by (auto simp add: create_georeferenced_shapefile_def polygon_loop_all[OF al] GeoDataFrame_def
      apply_geometry_def apply_loop set_crs_def Let_def)

lemma display_body_step:
  assumes "n < length scores"
  shows "display_body thr scores (n, to_full_image b (tx, ty)) ax =
     Inr (ax @ map overlay_rectangle
            (filter (\<lambda>d. thr < det_score d) [(l, b, scores ! n, tx, ty)]))"
  using assms
  by (cases b) (simp add: display_body_def py_index_def overlay_rectangle_def det_score_def
      to_full_image_def)

lemma display_loop:
  "length boxes + n = length labels \<Longrightarrow> length boxes + n = length scores \<Longrightarrow>
   for_each (display_body thr scores) (enumerate n (map (\<lambda>b. to_full_image b (tx, ty)) boxes)) ax =
     Inr (ax @ map overlay_rectangle (filter (\<lambda>d. thr < det_score d)
            (map (\<lambda>(l, b, s). (l, b, s, tx, ty))
               (zip (drop n labels) (zip boxes (drop n scores))))))"
proof (induction boxes arbitrary: n ax)
  case Nil
  show ?case by simp
next
  case (Cons b boxes)
  from Cons.prems have n: "n < length labels" "n < length scores"
    by simp_all
  then have d: "drop n labels = labels ! n # drop (Suc n) labels"
    "drop n scores = scores ! n # drop (Suc n) scores"
    by (simp_all add: Cons_nth_drop_Suc)
  from Cons.prems have ih: "for_each (display_body thr scores)
      (enumerate (Suc n) (map (\<lambda>b. to_full_image b (tx, ty)) boxes)) ax' =
     Inr (ax' @ map overlay_rectangle (filter (\<lambda>d. thr < det_score d)
            (map (\<lambda>(l, b, s). (l, b, s, tx, ty))
               (zip (drop (Suc n) labels) (zip boxes (drop (Suc n) scores))))))" for ax'
    by (intro Cons.IH) simp_all
  show ?case
    by (simp add: d ih display_body_step[OF n(2), where l = "labels ! n"])
qed

lemma display_loop_tile:
  assumes "aligned pred"
  shows "(case pred of (labels, boxes, scores, tile_x, tile_y) \<Rightarrow>
            let adjusted_boxes = adjust_boxes boxes tile_x tile_y
            in for_each (display_body thr scores) (enumerate 0 adjusted_boxes) ax) =
         Inr (ax @ map overlay_rectangle (filter (\<lambda>d. thr < det_score d) (tile_detections pred)))"
proof -
  obtain labels boxes scores tx ty where p: "pred = (labels, boxes, scores, tx, ty)"
    by (cases pred)
  with assms show ?thesis
    using display_loop[of boxes 0 labels scores thr tx ty ax]
    by (simp add: aligned_def tile_detections_def adjust_boxes_map)
qed

lemma display_result:
  assumes al: "\<forall>pred\<in>set preds. aligned pred"
    and op: "Image_open fs p = Inr im"
  shows "display_original_image_with_boxes fs p preds thr =
           Inr (map overlay_rectangle (filter (\<lambda>d. thr < det_score d) (all_detections preds)))"
proof -
  have "for_each (\<lambda>pred ax.
            case pred of (labels, boxes, scores, tile_x, tile_y) \<Rightarrow>
              let adjusted_boxes = adjust_boxes boxes tile_x tile_y
              in for_each (display_body thr scores) (enumerate 0 adjusted_boxes) ax) preds ax =
         Inr (ax @ map overlay_rectangle (filter (\<lambda>d. thr < det_score d) (all_detections preds)))"
    for ax
    using al
  proof (induction preds arbitrary: ax)
    case Nil
    show ?case by (simp add: all_detections_def)
  next
    case (Cons pred preds)
    then have a: "aligned pred" and as: "\<forall>pred\<in>set preds. aligned pred"
      by simp_all
    show ?case
      using display_loop_tile[OF a, of thr ax] Cons.IH[OF as]
      by (simp add: all_detections_def)
  qed
  with op show ?thesis
    by (simp add: display_original_image_with_boxes_def)
qed

lemma crop_nonpositive:
  assumes op: "Image_open fs image_path = Inr im"
    and h: "0 \<le> img_height im" and t: "tile_size \<le> 0"
  shows "crop_image_into_tiles fs image_path tile_size output_folder =
           (if tile_size = 0 then Inl ValueError else Inr [],
            if \<not> path_exists fs output_folder then makedirs fs output_folder else fs)"
proof (cases "tile_size = 0")
  case True
  with op show ?thesis
    by (simp add: crop_image_into_tiles_def py_range_def Let_def)
next
  case False
  with t h have "range_from 0 (img_height im) tile_size = []"
    by (simp add: range_from_neg)
  with op False show ?thesis
    by (simp add: crop_image_into_tiles_def py_range_def Let_def)
qed




lemma written_to_file: "written_layer (Inr (to_file fs p g)) p = Some g"
  by (simp add: written_layer_def to_file_def)

lemma export_written:
  assumes al: "\<forall>pred\<in>set preds. aligned pred"
    and op: "rasterio_open fs p = Inr src"
  shows "written_layer (create_georeferenced_shapefile fs preds p out thr) out =
     (let kept = filter (\<lambda>d. thr \<le> det_score d) (all_detections preds)
      in if kept = [] \<or> src_crs src \<noteq> Some (EPSG 32611) then None
         else Some \<lparr>gdf_columns = [''geometry'', ''label'', ''score''],
                 gdf_rows = map (geo_detection (src_transform src)) kept,
                 gdf_crs = Some (EPSG 32611)\<rparr>)"
  by (simp add: export_result[OF al op] Let_def written_to_file) (simp add: written_layer_def)

lemma export_crs_when_written:
  assumes "\<forall>pred\<in>set all_predictions. aligned pred"
    and "rasterio_open fs image_path = Inr src"
    and "written_layer
           (create_georeferenced_shapefile fs all_predictions image_path output_shapefile
              threshold) output_shapefile = Some layer"
  shows "gdf_crs layer = src_crs src \<and>
         gdf_rows layer =
           map (geo_detection (src_transform src))
             (filter (\<lambda>d. threshold \<le> det_score d) (all_detections all_predictions))"
  using assms(3)
  by (auto simp add: export_written[OF assms(1,2)] Let_def split: if_splits)



subsection \<open>Claims\<close>

text \<open>
  Claim C1. For every image of width \<open>W > 0\<close> and height \<open>H > 0\<close> and every
  \<open>tile_size > 0\<close>, \<^verbatim>\<open>crop_image_into_tiles\<close> returns, and the boxes of the tiles
  it returns (each tile's origin together with the size of the image saved for it) are
  pairwise disjoint and their union is exactly the pixel extent \<open>[0, W) \<times> [0, H)\<close> of the
  image: no gaps, no overlaps, nothing beyond the raster boundary.
\<close>
theorem tiles_partition_image:
  assumes "Image_open fs image_path = Inr im"
    and "0 < img_width im" and "0 < img_height im" and "0 < tile_size"
  shows "\<exists>tiles fs' boxes.
           crop_image_into_tiles fs image_path tile_size output_folder = (Inr tiles, fs') \<and>
           map (tile_box fs') tiles = map Some boxes \<and>
           distinct boxes \<and>
           (\<forall>b\<in>set boxes. \<forall>b'\<in>set boxes. b \<noteq> b' \<longrightarrow> box_pixels b \<inter> box_pixels b' = {}) \<and>
           \<Union> (box_pixels ` set boxes) = {0 ..< img_width im} \<times> {0 ..< img_height im}"
proof -
  let ?boxes = "grid_boxes (img_width im) (img_height im) tile_size"
  from crop_tiles_grid[OF assms(1,4), of output_folder] obtain tiles fs' where
    "crop_image_into_tiles fs image_path tile_size output_folder = (Inr tiles, fs')"
    "map (tile_box fs') tiles = map Some ?boxes"
    by blast
  moreover have "distinct ?boxes"
    using assms(4) by (rule grid_boxes_distinct)
  moreover have "\<forall>b\<in>set ?boxes. \<forall>b'\<in>set ?boxes. b \<noteq> b' \<longrightarrow> box_pixels b \<inter> box_pixels b' = {}"
    using grid_boxes_disjoint[OF assms(4)] by blast
  moreover have "\<Union> (box_pixels ` set ?boxes) = {0 ..< img_width im} \<times> {0 ..< img_height im}"
    using assms(4) by (rule grid_boxes_cover)
  ultimately show ?thesis by blast
qed

theorem tiles_partition_image_witness:
  "\<exists>tiles fs' boxes.
     crop_image_into_tiles (example_fs (example_image 3000 2000 ''RGB'' [0, 0, 0]) (Some (EPSG 32611)))
       ''ortho.tif'' 1024 ''cropped_tiles'' = (Inr tiles, fs') \<and>
     map (tile_box fs') tiles = map Some boxes \<and>
     distinct boxes \<and>
     (\<forall>b\<in>set boxes. \<forall>b'\<in>set boxes. b \<noteq> b' \<longrightarrow> box_pixels b \<inter> box_pixels b' = {}) \<and>
     \<Union> (box_pixels ` set boxes) = {0 ..< 3000} \<times> {0 ..< 2000}"
  using tiles_partition_image[of
      "example_fs (example_image 3000 2000 ''RGB'' [0, 0, 0]) (Some (EPSG 32611))"
      "''ortho.tif''" "example_image 3000 2000 ''RGB'' [0, 0, 0]" 1024 "''cropped_tiles''"]
  by (simp add: Image_open_def example_fs_def example_image_def)

text \<open>
  Claim C2. The export retains exactly the detections whose score is greater than or
  equal to the threshold, in tile order and then detection order: a detection whose score
  equals the threshold is written, one whose score is below it is dropped. It is stated
  for the inputs on which the export writes a layer: aligned prediction tuples, a raster
  in EPSG:32611 and at least one detection at or above the threshold. For the threshold
  0.15 and the scores 0.10, 0.15, 0.20 the second and the third detection are written.
\<close>
theorem export_keeps_scores_at_or_above_threshold:
  assumes "\<forall>pred\<in>set all_predictions. aligned pred"
    and "rasterio_open fs image_path = Inr src"
    and "src_crs src = Some (EPSG 32611)"
    and "\<exists>d\<in>set (all_detections all_predictions). threshold \<le> det_score d"
  shows "\<exists>layer.
           written_layer
             (create_georeferenced_shapefile fs all_predictions image_path output_shapefile
                threshold) output_shapefile = Some layer \<and>
           gdf_rows layer =
             map (geo_detection (src_transform src))
               (filter (\<lambda>d. threshold \<le> det_score d) (all_detections all_predictions))"
proof -
  from assms(4) have "filter (\<lambda>d. threshold \<le> det_score d) (all_detections all_predictions) \<noteq> []"
    by (simp add: filter_empty_conv)
  with assms(3) show ?thesis
    by (simp add: export_written[OF assms(1,2)])
qed

theorem export_keeps_scores_at_or_above_threshold_witness:
  "\<exists>layer.
     written_layer
       (create_georeferenced_shapefile
          (example_fs (example_image 3000 2000 ''RGB'' [0, 0, 0]) (Some (EPSG 32611)))
          [([''lettuce'', ''lettuce'', ''lettuce''],
            [(10, 20, 30, 40), (50, 60, 70, 80), (100, 100, 200, 200)],
            [10 / 100, 15 / 100, 20 / 100], 0, 0)]
          ''ortho.tif'' ''lettuce.shp'' (15 / 100)) ''lettuce.shp'' = Some layer \<and>
     gdf_rows layer =
       [geo_detection example_transform (''lettuce'', (50, 60, 70, 80), 15 / 100, 0, 0),
        geo_detection example_transform (''lettuce'', (100, 100, 200, 200), 20 / 100, 0, 0)]"
  using export_keeps_scores_at_or_above_threshold[of
      "[([''lettuce'', ''lettuce'', ''lettuce''],
         [(10, 20, 30, 40), (50, 60, 70, 80), (100, 100, 200, 200)],
         [10 / 100, 15 / 100, 20 / 100], 0, 0)]"
      "example_fs (example_image 3000 2000 ''RGB'' [0, 0, 0]) (Some (EPSG 32611))"
      "''ortho.tif''" "\<lparr>src_crs = Some (EPSG 32611), src_transform = example_transform\<rparr>"
      "15 / 100" "''lettuce.shp''"]
  by (simp add: rasterio_open_def example_fs_def aligned_def all_detections_def
      tile_detections_def det_score_def)

text \<open>
  Claim C3. The tile-to-full-image remap adds the tile origin to the box, exactly:
  \<^verbatim>\<open>adjust_boxes\<close> maps every box \<open>(x_min, y_min, x_max, y_max)\<close> to
  \<open>(x_min + tile_x, y_min + tile_y, x_max + tile_x, y_max + tile_y)\<close>, and the export
  writes, for a detection that passes the threshold, the polygon obtained by transforming
  the box with exactly these four coordinates. For the offset \<open>(1024, 0)\<close> and the box
  \<open>(10, 20, 30, 40)\<close> the result is \<open>(1034, 20, 1054, 40)\<close>.
\<close>
theorem remap_adds_tile_origin:
  assumes "rasterio_open fs image_path = Inr src"
    and "src_crs src = Some (EPSG 32611)"
    and "threshold \<le> s"
  shows "adjust_boxes boxes tile_x tile_y =
           map (\<lambda>(x_min, y_min, x_max, y_max).
                  (x_min + of_int tile_x, y_min + of_int tile_y,
                   x_max + of_int tile_x, y_max + of_int tile_y)) boxes \<and>
         (\<exists>g. transform_polygon
                 (shapely_box (x_min + of_int tile_x) (y_min + of_int tile_y)
                    (x_max + of_int tile_x) (y_max + of_int tile_y))
                 (src_transform src) = Inr g \<and>
              written_layer
                (create_georeferenced_shapefile fs
                   [([l], [(x_min, y_min, x_max, y_max)], [s], tile_x, tile_y)]
                   image_path output_shapefile threshold) output_shapefile =
              Some \<lparr>gdf_columns = [''geometry'', ''label'', ''score''],
                    gdf_rows = [\<lparr>geometry = g, label = l, score = s\<rparr>],
                    gdf_crs = Some (EPSG 32611)\<rparr>)"
proof -
  have 1: "adjust_boxes boxes tile_x tile_y =
           map (\<lambda>(x_min, y_min, x_max, y_max).
                  (x_min + of_int tile_x, y_min + of_int tile_y,
                   x_max + of_int tile_x, y_max + of_int tile_y)) boxes"
    by (simp add: adjust_boxes_map to_full_image_def)
  let ?b = "(x_min, y_min, x_max, y_max)"
  let ?preds = "[([l], [?b], [s], tile_x, tile_y)]"
  have al: "\<forall>pred\<in>set ?preds. aligned pred"
    by (simp add: aligned_def)
  have g: "transform_polygon
             (shapely_box (x_min + of_int tile_x) (y_min + of_int tile_y)
                (x_max + of_int tile_x) (y_max + of_int tile_y))
             (src_transform src) =
           Inr (to_geographic (to_full_image ?b (tile_x, tile_y)) (src_transform src))"
    using transform_box_polygon[of "to_full_image ?b (tile_x, tile_y)" "src_transform src"]
    by (simp add: to_full_image_def box_polygon_def)
  have "written_layer
          (create_georeferenced_shapefile fs ?preds image_path output_shapefile threshold)
          output_shapefile =
        Some \<lparr>gdf_columns = [''geometry'', ''label'', ''score''],
              gdf_rows = [\<lparr>geometry = to_geographic (to_full_image ?b (tile_x, tile_y))
                                        (src_transform src),
                          label = l, score = s\<rparr>],
              gdf_crs = Some (EPSG 32611)\<rparr>"
    using assms(2,3)
    by (simp add: export_result[OF al assms(1)] all_detections_def tile_detections_def
        det_score_def geo_detection_def written_layer_def to_file_def)
  with 1 g show ?thesis by blast
qed

theorem remap_adds_tile_origin_witness:
  "adjust_boxes [(10, 20, 30, 40)] 1024 0 = [(1034, 20, 1054, 40)] \<and>
   written_layer
     (create_georeferenced_shapefile
        (example_fs (example_image 3000 2000 ''RGB'' [0, 0, 0]) (Some (EPSG 32611)))
        [([''lettuce''], [(10, 20, 30, 40)], [9 / 10], 1024, 0)]
        ''ortho.tif'' ''lettuce.shp'' (15 / 100)) ''lettuce.shp'' =
   Some \<lparr>gdf_columns = [''geometry'', ''label'', ''score''],
         gdf_rows = [\<lparr>geometry = shapely_box (50001054 / 100) (39999998 / 10)
                                    (50001034 / 100) (39999996 / 10),
                     label = ''lettuce'', score = 9 / 10\<rparr>],
         gdf_crs = Some (EPSG 32611)\<rparr>"
  using remap_adds_tile_origin[of
      "example_fs (example_image 3000 2000 ''RGB'' [0, 0, 0]) (Some (EPSG 32611))"
      "''ortho.tif''" "\<lparr>src_crs = Some (EPSG 32611), src_transform = example_transform\<rparr>"
      "15 / 100" "9 / 10" "[(10, 20, 30, 40)]" 1024 0 10 20 30 40 "''lettuce''" "''lettuce.shp''"]
  by (simp add: rasterio_open_def example_fs_def transform_polygon_def shapely_box_def
      py_index_def affine_apply_def example_transform_def)

text \<open>
  Claim C4. Shifting a tile-local box by the tile origin and then applying the affine
  transform gives the same polygon as applying, to the tile-local box, the transform
  with the origin incorporated into its translation. The equality is exact in real
  arithmetic and holds for every affine transform, with or without rotation terms.
\<close>
theorem remap_then_transform_commutes:
  "map (\<lambda>b. transform_polygon (box_polygon b) t) (adjust_boxes boxes tile_x tile_y) =
   map (\<lambda>b. transform_polygon (box_polygon b) (incorporate_offset t (tile_x, tile_y))) boxes"
proof -
  have "transform_polygon (box_polygon (to_full_image b (tile_x, tile_y))) t =
        transform_polygon (box_polygon b) (incorporate_offset t (tile_x, tile_y))" for b
    by (cases b)
      (simp add: transform_box_polygon to_geographic_def to_full_image_def affine_apply_def
        incorporate_offset_def Let_def algebra_simps)
  then show ?thesis
    by (simp add: adjust_boxes_map)
qed

theorem remap_then_transform_commutes_witness:
  "map (\<lambda>b. transform_polygon (box_polygon b) example_transform)
     (adjust_boxes [(100, 100, 200, 200)] 1024 0) =
   [Inr (shapely_box (50001224 / 100) 3999999 (50001124 / 100) 3999998)] \<and>
   map (\<lambda>b. transform_polygon (box_polygon b) (incorporate_offset example_transform (1024, 0)))
     [(100, 100, 200, 200)] =
   [Inr (shapely_box (50001224 / 100) 3999999 (50001124 / 100) 3999998)]"
  using remap_then_transform_commutes[of example_transform "[(100, 100, 200, 200)]" 1024 0]
  by (simp add: transform_box_polygon to_geographic_def incorporate_offset_def
      affine_apply_def example_transform_def)

text \<open>
  Claim C5. For every \<open>tile_size > 0\<close>, \<^verbatim>\<open>crop_image_into_tiles\<close> enumerates the
  tiles in row-major order: the origins are \<open>oy = 0, tile_size, 2 * tile_size, ...\<close> below
  \<open>H\<close> and, for each \<open>oy\<close>, \<open>ox = 0, tile_size, ...\<close> below \<open>W\<close>; tile number \<open>k\<close>
  is saved as \<^verbatim>\<open>tile_k.jpg\<close>; and the box of each tile is
  \<open>(ox, oy, min (ox + tile_size) W, min (oy + tile_size) H)\<close>, clipped at the boundary.
  For \<open>W = 2000\<close>, \<open>H = 1500\<close>, \<open>tile_size = 1024\<close> these are the four boxes
  \<open>(0,0,1024,1024)\<close>, \<open>(1024,0,2000,1024)\<close>, \<open>(0,1024,1024,1500)\<close>,
  \<open>(1024,1024,2000,1500)\<close>, in this order.
\<close>
theorem tiles_row_major_clipped:
  assumes "Image_open fs image_path = Inr im" and "0 < tile_size"
  shows "\<exists>tiles fs'.
           crop_image_into_tiles fs image_path tile_size output_folder = (Inr tiles, fs') \<and>
           map fst tiles = map (tile_path_of output_folder) [0 ..< length tiles] \<and>
           map snd tiles =
             grid_points (grid_offsets (img_width im) tile_size)
               (grid_offsets (img_height im) tile_size) \<and>
           map (tile_box fs') tiles =
             map Some (grid_boxes (img_width im) (img_height im) tile_size)"
  using crop_tiles_grid[OF assms, of output_folder] by blast

theorem tiles_row_major_clipped_witness:
  "\<exists>tiles fs'.
     crop_image_into_tiles (example_fs (example_image 2000 1500 ''RGB'' [0, 0, 0]) (Some (EPSG 32611)))
       ''ortho.tif'' 1024 ''cropped_tiles'' = (Inr tiles, fs') \<and>
     map fst tiles = map (tile_path_of ''cropped_tiles'') [0 ..< length tiles] \<and>
     map snd tiles = [(0, 0), (1024, 0), (0, 1024), (1024, 1024)] \<and>
     map (tile_box fs') tiles =
       map Some [(0, 0, 1024, 1024), (1024, 0, 2000, 1024),
                 (0, 1024, 1024, 1500), (1024, 1024, 2000, 1500)]"
proof -
  let ?im = "example_image 2000 1500 ''RGB'' [0, 0, 0]"
  let ?fs = "example_fs ?im (Some (EPSG 32611))"
  have op: "Image_open ?fs ''ortho.tif'' = Inr ?im"
    by (simp add: Image_open_def example_fs_def)
  have w: "grid_offsets 2000 1024 = [0, 1024]" and h: "grid_offsets 1500 1024 = [0, 1024]"
    by (simp_all add: grid_offsets_def upt_conv_Cons)
  have pts: "grid_points (grid_offsets (img_width ?im) 1024) (grid_offsets (img_height ?im) 1024) =
               [(0, 0), (1024, 0), (0, 1024), (1024, 1024)]"
    by (simp add: example_image_def w h grid_points_def)
  have bxs: "grid_boxes (img_width ?im) (img_height ?im) 1024 =
               [(0, 0, 1024, 1024), (1024, 0, 2000, 1024),
                (0, 1024, 1024, 1500), (1024, 1024, 2000, 1500)]"
    unfolding grid_boxes_def pts by (simp add: example_image_def clipped_box_def)
  have t: "(0::int) < 1024" by simp
  show ?thesis
    using tiles_row_major_clipped[OF op t, of "''cropped_tiles''"]
    unfolding pts bxs .
qed

text \<open>
  Claim C6 says that a run without any detection at or above the threshold (an empty
  prediction list, or all scores below the threshold) still writes a valid, empty layer.
  The code departs from it: the list of polygons is then empty, the frame built from it
  has no geometry column, and \<^verbatim>\<open>GeoDataFrame\<close> raises \<^verbatim>\<open>ValueError\<close> before
  anything is written. The theorem states this behaviour of the code on every such input.
\<close>
theorem export_without_detections_raises:
  assumes "\<forall>pred\<in>set all_predictions. aligned pred"
    and "rasterio_open fs image_path = Inr src"
    and "\<forall>d\<in>set (all_detections all_predictions). det_score d < threshold"
  shows "create_georeferenced_shapefile fs all_predictions image_path output_shapefile threshold =
           Inl ValueError"
proof -
  from assms(3) have "filter (\<lambda>d. threshold \<le> det_score d) (all_detections all_predictions) = []"
    by (auto simp: filter_empty_conv)
  then show ?thesis
    by (simp add: export_result[OF assms(1,2)])
qed

theorem export_without_detections_raises_witness:
  "create_georeferenced_shapefile
     (example_fs (example_image 3000 2000 ''RGB'' [0, 0, 0]) (Some (EPSG 32611)))
     [] ''ortho.tif'' ''lettuce.shp'' (15 / 100) = Inl ValueError \<and>
   create_georeferenced_shapefile
     (example_fs (example_image 3000 2000 ''RGB'' [0, 0, 0]) (Some (EPSG 32611)))
     [([''lettuce''], [(100, 100, 200, 200)], [10 / 100], 0, 0)]
     ''ortho.tif'' ''lettuce.shp'' (15 / 100) = Inl ValueError"
  using export_without_detections_raises[of "[]"
      "example_fs (example_image 3000 2000 ''RGB'' [0, 0, 0]) (Some (EPSG 32611))"
      "''ortho.tif''" "\<lparr>src_crs = Some (EPSG 32611), src_transform = example_transform\<rparr>"
      "15 / 100" "''lettuce.shp''"]
    export_without_detections_raises[of
      "[([''lettuce''], [(100, 100, 200, 200)], [10 / 100], 0, 0)]"
      "example_fs (example_image 3000 2000 ''RGB'' [0, 0, 0]) (Some (EPSG 32611))"
      "''ortho.tif''" "\<lparr>src_crs = Some (EPSG 32611), src_transform = example_transform\<rparr>"
      "15 / 100" "''lettuce.shp''"]
  by (simp add: rasterio_open_def example_fs_def all_detections_def tile_detections_def
      aligned_def det_score_def)

text \<open>
  Claim C7 says that for every raster the written layer declares the raster's CRS. The
  code departs from it: the frame is built with the constant EPSG:32611, and
  \<^verbatim>\<open>set_crs\<close> refuses to replace a CRS by a different one, so for a raster in any
  other CRS (or without one) the export raises \<^verbatim>\<open>ValueError\<close> and writes nothing.
  The theorem states this behaviour of the code on every such input.
\<close>
theorem export_other_crs_raises:
  assumes "\<forall>pred\<in>set all_predictions. aligned pred"
    and "rasterio_open fs image_path = Inr src"
    and "src_crs src \<noteq> Some (EPSG 32611)"
  shows "create_georeferenced_shapefile fs all_predictions image_path output_shapefile threshold =
           Inl ValueError"
  using assms(3) by (simp add: export_result[OF assms(1,2)])

theorem export_other_crs_raises_witness:
  "create_georeferenced_shapefile
     (example_fs (example_image 3000 2000 ''RGB'' [0, 0, 0]) (Some (EPSG 4326)))
     [([''lettuce''], [(100, 100, 200, 200)], [9 / 10], 0, 0)]
     ''ortho.tif'' ''lettuce.shp'' (15 / 100) = Inl ValueError"
  using export_other_crs_raises[of "[([''lettuce''], [(100, 100, 200, 200)], [9 / 10], 0, 0)]"
      "example_fs (example_image 3000 2000 ''RGB'' [0, 0, 0]) (Some (EPSG 4326))"
      "''ortho.tif''" "\<lparr>src_crs = Some (EPSG 4326), src_transform = example_transform\<rparr>"
      "''lettuce.shp''" "15 / 100"]
  by (simp add: rasterio_open_def example_fs_def aligned_def)

text \<open>
  Claim C8 says that every \<open>tile_size \<le> 0\<close> makes the tile generation fail. It does
  not for a negative one: \<^verbatim>\<open>range(0, H, -1024)\<close> is empty, so the call returns an
  empty list of tiles.
\<close>
theorem negative_tile_size_counterexample:
  "fst (crop_image_into_tiles
          (example_fs (example_image 2000 1500 ''RGB'' [0, 0, 0]) (Some (EPSG 32611)))
          ''ortho.tif'' (- 1024) ''cropped_tiles'') = Inr []"
  by (simp add: crop_nonpositive Image_open_def example_fs_def example_image_def)

text \<open>
  Claim C8, amended. For \<open>tile_size = 0\<close> the tile generation raises
  \<^verbatim>\<open>ValueError\<close> (from \<^verbatim>\<open>range\<close>) instead of returning a result; for
  \<open>tile_size < 0\<close> it raises nothing and returns the empty list. In both cases no tile is
  written.
\<close>
theorem nonpositive_tile_size:
  assumes "Image_open fs image_path = Inr im"
    and "0 \<le> img_height im" and "tile_size \<le> 0"
  shows "fst (crop_image_into_tiles fs image_path tile_size output_folder) =
           (if tile_size = 0 then Inl ValueError else Inr []) \<and>
         fs_files (snd (crop_image_into_tiles fs image_path tile_size output_folder)) =
           fs_files fs"
  by (simp add: crop_nonpositive[OF assms] makedirs_def)

theorem nonpositive_tile_size_witness:
  "fst (crop_image_into_tiles
          (example_fs (example_image 2000 1500 ''RGB'' [0, 0, 0]) (Some (EPSG 32611)))
          ''ortho.tif'' 0 ''cropped_tiles'') = Inl ValueError \<and>
   fs_files (snd (crop_image_into_tiles
          (example_fs (example_image 2000 1500 ''RGB'' [0, 0, 0]) (Some (EPSG 32611)))
          ''ortho.tif'' 0 ''cropped_tiles'')) =
   fs_files (example_fs (example_image 2000 1500 ''RGB'' [0, 0, 0]) (Some (EPSG 32611)))"
  using nonpositive_tile_size[of
      "example_fs (example_image 2000 1500 ''RGB'' [0, 0, 0]) (Some (EPSG 32611))"
      "''ortho.tif''" "example_image 2000 1500 ''RGB'' [0, 0, 0]" 0 "''cropped_tiles''"]
  by (simp add: Image_open_def example_fs_def example_image_def)




text \<open>
  Claim C10. The overlay and the export compare with different boundaries: the export
  writes the detections with \<open>score \<ge> threshold\<close>, the overlay draws those with
  \<open>score > threshold\<close>. A detection whose score equals the threshold is therefore among
  the exported ones and not among the drawn ones, and the overlay has fewer rectangles
  than the layer has features.
\<close>
theorem display_and_export_disagree_at_threshold:
  assumes "\<forall>pred\<in>set all_predictions. aligned pred"
    and "fs_files fs image_path = Some (RasterFile im src)"
    and "src_crs src = Some (EPSG 32611)"
    and "d \<in> set (all_detections all_predictions)"
    and "det_score d = threshold"
  shows "\<exists>layer overlay.
           written_layer
             (create_georeferenced_shapefile fs all_predictions image_path output_shapefile
                threshold) output_shapefile = Some layer \<and>
           display_original_image_with_boxes fs image_path all_predictions threshold =
             Inr overlay \<and>
           gdf_rows layer =
             map (geo_detection (src_transform src))
               (filter (\<lambda>d. threshold \<le> det_score d) (all_detections all_predictions)) \<and>
           overlay =
             map overlay_rectangle
               (filter (\<lambda>d. threshold < det_score d) (all_detections all_predictions)) \<and>
           d \<in> set (filter (\<lambda>d. threshold \<le> det_score d) (all_detections all_predictions)) \<and>
           d \<notin> set (filter (\<lambda>d. threshold < det_score d) (all_detections all_predictions)) \<and>
           length overlay < length (gdf_rows layer)"
proof -
  let ?ds = "all_detections all_predictions"
  let ?ge = "filter (\<lambda>d. threshold \<le> det_score d) ?ds"
  let ?gt = "filter (\<lambda>d. threshold < det_score d) ?ds"
  from assms(2) have ro: "rasterio_open fs image_path = Inr src"
    and io: "Image_open fs image_path = Inr im"
    by (simp_all add: rasterio_open_def Image_open_def)
  from assms(4,5) have ge: "d \<in> set ?ge" and gt: "d \<notin> set ?gt"
    by simp_all
  from ge have ne: "?ge \<noteq> []"
    by (metis list.set(1) empty_iff)
  have "?gt = filter (\<lambda>d. threshold < det_score d) ?ge"
    by (simp add: conj_commute less_le)
  with ge assms(5) have len: "length ?gt < length ?ge"
    by (metis length_filter_less less_irrefl)
  have "written_layer
          (create_georeferenced_shapefile fs all_predictions image_path output_shapefile
             threshold) output_shapefile =
        Some \<lparr>gdf_columns = [''geometry'', ''label'', ''score''],
              gdf_rows = map (geo_detection (src_transform src)) ?ge,
              gdf_crs = Some (EPSG 32611)\<rparr>"
    using ne assms(3) by (simp add: export_written[OF assms(1) ro])
  moreover have "display_original_image_with_boxes fs image_path all_predictions threshold =
                   Inr (map overlay_rectangle ?gt)"
    by (rule display_result[OF assms(1) io])
  ultimately show ?thesis
    using ge gt len by simp
qed

theorem display_and_export_disagree_at_threshold_witness:
  "\<exists>layer overlay.
     written_layer
       (create_georeferenced_shapefile
          (example_fs (example_image 3000 2000 ''RGB'' [0, 0, 0]) (Some (EPSG 32611)))
          [([''lettuce''], [(10, 20, 30, 40)], [15 / 100], 1024, 0)]
          ''ortho.tif'' ''lettuce.shp'' (15 / 100)) ''lettuce.shp'' = Some layer \<and>
     display_original_image_with_boxes
       (example_fs (example_image 3000 2000 ''RGB'' [0, 0, 0]) (Some (EPSG 32611)))
       ''ortho.tif'' [([''lettuce''], [(10, 20, 30, 40)], [15 / 100], 1024, 0)] (15 / 100) =
       Inr overlay \<and>
     gdf_rows layer =
       [geo_detection example_transform (''lettuce'', (10, 20, 30, 40), 15 / 100, 1024, 0)] \<and>
     overlay = []"
  using display_and_export_disagree_at_threshold[of
      "[([''lettuce''], [(10, 20, 30, 40)], [15 / 100], 1024, 0)]"
      "example_fs (example_image 3000 2000 ''RGB'' [0, 0, 0]) (Some (EPSG 32611))"
      "''ortho.tif''" "example_image 3000 2000 ''RGB'' [0, 0, 0]"
      "\<lparr>src_crs = Some (EPSG 32611), src_transform = example_transform\<rparr>"
      "(''lettuce'', (10, 20, 30, 40), 15 / 100, 1024, 0)" "15 / 100" "''lettuce.shp''"]
  by (auto simp add: example_fs_def aligned_def all_detections_def tile_detections_def
      det_score_def)

end
